theory Spec2Isabelle
  imports Main "HOL-Library.Word"
begin

section \<open>The Jira bot for Slack: a shallow embedding of \<^verbatim>\<open>jira-bot.go\<close>\<close>

text \<open>
  The program listens to a Slack real-time session; for every message that is not ignored
  it extracts the Jira issue keys mentioned in the text and posts one summary per key.
  Strings are Go strings, that is byte sequences: \<^typ>\<open>string\<close>. Every function of the
  source keeps its name. What the source takes from other packages (\<^verbatim>\<open>regexp\<close>,
  \<^verbatim>\<open>strings\<close>, \<^verbatim>\<open>fmt\<close>, \<^verbatim>\<open>os\<close>, the Slack and Jira clients) is modelled next to
  the function that calls it.
  The event loop of \<^verbatim>\<open>main\<close> hands every message event to \<^verbatim>\<open>handleIncomingMessage\<close> and
  logs the other events; the model starts at \<^verbatim>\<open>handleIncomingMessage\<close>.
\<close>

subsection \<open>Slices\<close>

text \<open>
  A Go slice is either \<^verbatim>\<open>nil\<close> or holds a sequence; \<^verbatim>\<open>len\<close> and \<^verbatim>\<open>range\<close> treat the
  nil slice as empty, \<^verbatim>\<open>append\<close> to either gives a non-nil slice.
\<close>

datatype 'a slice = NilSlice | Slice "'a list"

fun elems :: "'a slice \<Rightarrow> 'a list" where
  "elems NilSlice = []"
| "elems (Slice xs) = xs"

fun append_slice :: "'a slice \<Rightarrow> 'a \<Rightarrow> 'a slice" where
  "append_slice NilSlice x = Slice [x]"
| "append_slice (Slice xs) x = Slice (xs @ [x])"

subsection \<open>Panics and results\<close>

text \<open>
  A run-time panic is a value. \<open>NilDeref\<close> is the run-time error of a selector applied to
  a nil pointer; \<open>Panic msg\<close> is a call of \<^verbatim>\<open>panic\<close> inside a library. A function
  that may panic returns \<open>panic + 'a\<close>, \<open>Inl\<close> the panic.
\<close>

datatype panic = NilDeref | Panic string

fun panic_text :: "panic \<Rightarrow> string" where
  "panic_text NilDeref = ''runtime error: invalid memory address or nil pointer dereference''"
| "panic_text (Panic msg) = msg"

fun bind_res :: "panic + 'a \<Rightarrow> ('a \<Rightarrow> panic + 'b) \<Rightarrow> panic + 'b" where
  "bind_res (Inl e) f = Inl e"
| "bind_res (Inr v) f = f v"

fun deref :: "'a option \<Rightarrow> panic + 'a" where
  "deref None = Inl NilDeref"
| "deref (Some v) = Inr v"

subsection \<open>Character classes, \<^verbatim>\<open>strings.ToUpper\<close>, \<^verbatim>\<open>%d\<close>\<close>

text \<open>
  The classes \<^verbatim>\<open>\d\<close> and \<^verbatim>\<open>\w\<close> of Go's \<^verbatim>\<open>regexp\<close> are ASCII only:
  \<^verbatim>\<open>[0-9]\<close> and \<^verbatim>\<open>[0-9A-Za-z_]\<close>. Every byte of a multi-byte UTF-8 sequence is at
  least \<open>0x80\<close>, hence in neither class, so matching bytes agrees with matching runes.
\<close>

definition is_digit :: "char \<Rightarrow> bool" where
  "is_digit c = (let n = (of_char c :: nat) in 48 \<le> n \<and> n \<le> 57)"

definition is_lower :: "char \<Rightarrow> bool" where
  "is_lower c = (let n = (of_char c :: nat) in 97 \<le> n \<and> n \<le> 122)"

definition is_word_char :: "char \<Rightarrow> bool" where
  "is_word_char c = (let n = (of_char c :: nat) in
     (48 \<le> n \<and> n \<le> 57) \<or> (65 \<le> n \<and> n \<le> 90) \<or> n = 95 \<or> (97 \<le> n \<and> n \<le> 122))"

text \<open>
  \<^verbatim>\<open>strings.ToUpper\<close> on an ASCII string subtracts \<^verbatim>\<open>'a' - 'A'\<close> from every byte in
  \<^verbatim>\<open>'a'..'z'\<close>. On a string with a byte from \<open>0x80\<close> on, Go maps \<^verbatim>\<open>unicode.ToUpper\<close>
  over the runes instead; that path is not modelled (such bytes are left as they are):
  the program upper-cases matches of the issue pattern only, and those are ASCII
  (\<open>backtrack_issue_re_shape\<close> below).
\<close>

definition upper_byte :: "char \<Rightarrow> char" where
  "upper_byte c = (if is_lower c then char_of (of_char c - (32::nat)) else c)"

definition ToUpper :: "string \<Rightarrow> string" where
  "ToUpper s = map upper_byte s"

text \<open>The verb \<^verbatim>\<open>%d\<close> of \<^verbatim>\<open>fmt.Sprintf\<close> on an \<^verbatim>\<open>int64\<close>: decimal, a minus sign if negative.\<close>

definition digit_char :: "nat \<Rightarrow> char" where
  "digit_char n = char_of (48 + n mod 10)"

function decimal :: "nat \<Rightarrow> string" where
  "decimal n = (if n < 10 then [digit_char n] else decimal (n div 10) @ [digit_char n])"
  by pat_completeness auto
termination
  by (relation "measure id") auto

declare decimal.simps [simp del]

definition fmt_d :: "int \<Rightarrow> string" where
  "fmt_d i = (if i < 0 then CHR ''-'' # decimal (nat (- i)) else decimal (nat i))"

subsection \<open>The regular expression \<^verbatim>\<open>\b(\w+)-(\d+)\b\<close>\<close>

text \<open>
  The operators of \<^verbatim>\<open>regexp/syntax\<close> that the pattern uses. Go's matcher returns the
  leftmost match and, among the matches that start there, the one a backtracking search
  finds first (\<^verbatim>\<open>+\<close> is greedy). \<open>backtrack r p s\<close> lists, in that order of preference,
  the ways \<open>r\<close> matches a prefix of \<open>s\<close>: each is the last byte before the end of the
  match together with the input left after it. \<open>p\<close> is the byte before \<open>s\<close> in the whole
  text (\<open>None\<close> at its start), which \<^verbatim>\<open>\b\<close> looks at.
\<close>

datatype regex =
    Lit char
  | CharClass "char \<Rightarrow> bool"
  | WordBoundary
  | Plus regex
  | Concat regex regex
  | Capture regex

fun is_word_at :: "char option \<Rightarrow> bool" where
  "is_word_at None = False"
| "is_word_at (Some c) = is_word_char c"

fun next_char :: "string \<Rightarrow> char option" where
  "next_char [] = None"
| "next_char (c # cs) = Some c"

function (sequential) backtrack ::
  "regex \<Rightarrow> char option \<Rightarrow> string \<Rightarrow> (char option \<times> string) list" where
  "backtrack (Lit a) p [] = []"
| "backtrack (Lit a) p (c # cs) = (if c = a then [(Some c, cs)] else [])"
| "backtrack (CharClass f) p [] = []"
| "backtrack (CharClass f) p (c # cs) = (if f c then [(Some c, cs)] else [])"
| "backtrack WordBoundary p s =
     (if is_word_at p \<noteq> is_word_at (next_char s) then [(p, s)] else [])"
| "backtrack (Capture r) p s = backtrack r p s"
| "backtrack (Concat r1 r2) p s =
     concat (map (\<lambda>q. backtrack r2 (fst q) (snd q)) (backtrack r1 p s))"
| "backtrack (Plus r) p s =
     concat (map (\<lambda>q. (if length (snd q) < length s
                         then backtrack (Plus r) (fst q) (snd q) else []) @ [q])
                 (backtrack r p s))"
  by pat_completeness auto
termination
  by (relation "measures [\<lambda>(r, p, s). size r, \<lambda>(r, p, s). length s]") auto

declare backtrack.simps [simp del]

definition issue_re :: regex where
  "issue_re =
     Concat WordBoundary
       (Concat (Capture (Plus (CharClass is_word_char)))
          (Concat (Lit CHR ''-'')
             (Concat (Capture (Plus (CharClass is_digit))) WordBoundary)))"

text \<open>
  \<^verbatim>\<open>doExecute\<close> finds the leftmost match at or after the current position. It returns
  the text skipped before the match, the matched text, the byte before the rest and the
  rest of the input.
\<close>

fun doExecute ::
  "regex \<Rightarrow> char option \<Rightarrow> string \<Rightarrow> (string \<times> string \<times> char option \<times> string) option" where
  "doExecute r p [] =
     (case backtrack r p [] of [] \<Rightarrow> None | q # _ \<Rightarrow> Some ([], [], fst q, snd q))"
| "doExecute r p (c # cs) =
     (case backtrack r p (c # cs) of
        [] \<Rightarrow> (case doExecute r (Some c) cs of
                 None \<Rightarrow> None
               | Some (skipped, rest) \<Rightarrow> Some (c # skipped, rest))
      | q # _ \<Rightarrow> Some ([], take (length (c # cs) - length (snd q)) (c # cs), fst q, snd q))"

text \<open>
  The loop of \<^verbatim>\<open>allMatches\<close>: successive non-overlapping matches. After a match that
  consumed input the search goes on at its end. An empty match at the search position
  is dropped when it touches the previous match (\<open>adj\<close>), and the search steps one
  position on (one byte here, one rune in Go: the issue pattern has no empty match,
  see \<open>doExecute_issue_re\<close>, so the program never takes that branch). The second test
  on the lengths makes the recursion visibly terminate; it holds for every match of the
  issue pattern (\<open>allMatches_issue_re_unfold\<close>).
\<close>

function allMatches :: "regex \<Rightarrow> bool \<Rightarrow> char option \<Rightarrow> string \<Rightarrow> string list" where
  "allMatches r adj p s =
     (case doExecute r p s of
        None \<Rightarrow> []
      | Some (skipped, matched, p', s') \<Rightarrow>
          if skipped = [] \<and> matched = [] then
            (if adj then [] else [[]]) @
            (case s of [] \<Rightarrow> [] | c # cs \<Rightarrow> allMatches r False (Some c) cs)
          else if length s' < length s then matched # allMatches r True p' s'
          else [matched])"
  by pat_completeness auto
termination
  by (relation "measure (\<lambda>(r, adj, p, s). length s)") auto

declare allMatches.simps [simp del]

text \<open>\<^verbatim>\<open>FindAllString(s, -1)\<close>: all matches; the nil slice when there is none.\<close>

definition FindAllString :: "regex \<Rightarrow> string \<Rightarrow> string slice" where
  "FindAllString re s =
     (case allMatches re False None s of [] \<Rightarrow> NilSlice | m # ms \<Rightarrow> Slice (m # ms))"

subsection \<open>\<^verbatim>\<open>extractIssueIDs\<close>\<close>

text \<open>
  \<^verbatim>\<open>encountered\<close> is a \<^verbatim>\<open>map[string]bool\<close>: reading a key that is absent gives
  \<^verbatim>\<open>false\<close>. The loop ranges over the matches in order; \<open>result\<close> starts as the empty,
  non-nil slice \<^verbatim>\<open>[]string{}\<close>.
\<close>

definition map_index :: "(string \<rightharpoonup> bool) \<Rightarrow> string \<Rightarrow> bool" where
  "map_index m k = (case m k of None \<Rightarrow> False | Some b \<Rightarrow> b)"

fun extract_loop :: "string list \<Rightarrow> (string \<rightharpoonup> bool) \<Rightarrow> string slice \<Rightarrow> string slice" where
  "extract_loop [] encountered result = result"
| "extract_loop (m # ms) encountered result =
     (let u = ToUpper m in
      if map_index encountered u = True then extract_loop ms encountered result
      else extract_loop ms (encountered(u \<mapsto> True)) (append_slice result u))"

definition extractIssueIDs :: "string \<Rightarrow> string slice" where
  "extractIssueIDs message =
     (let matches = FindAllString issue_re message
      in extract_loop (elems matches) Map.empty (Slice []))"

subsection \<open>Configuration: \<^verbatim>\<open>getConfig\<close>\<close>

text \<open>
  The process environment maps names to values; \<^verbatim>\<open>os.Getenv\<close> gives the empty string
  for a name that is not set. \<^verbatim>\<open>getConfig\<close> takes no argument and keeps nothing: every
  call builds a fresh \<^verbatim>\<open>BotConfig\<close> from the environment as it is at that call, which
  is the argument \<open>env\<close> of every function below that reaches \<^verbatim>\<open>getConfig\<close>.
\<close>

type_synonym environ = "string \<rightharpoonup> string"

definition Getenv :: "environ \<Rightarrow> string \<Rightarrow> string" where
  "Getenv env k = (case env k of None \<Rightarrow> [] | Some v \<Rightarrow> v)"

record BotConfig =
  Username :: string
  SlackAPIKey :: string
  JiraUsername :: string
  JiraPassword :: string
  JiraBaseURL :: string

definition getConfig :: "environ \<Rightarrow> BotConfig" where
  "getConfig env =
     \<lparr> Username = ''JiraBot'',
       SlackAPIKey = Getenv env ''SLACK_API_KEY'',
       JiraUsername = Getenv env ''JIRA_USERNAME'',
       JiraPassword = Getenv env ''JIRA_PASSWORD'',
       JiraBaseURL = Getenv env ''JIRA_BASEURL'' \<rparr>"

definition getJiraURL :: "environ \<Rightarrow> string \<Rightarrow> string" where
  "getJiraURL env issueKey = JiraBaseURL (getConfig env) @ ''/browse/'' @ issueKey"

subsection \<open>The Jira client and \<^verbatim>\<open>formatMessage\<close>\<close>

text \<open>
  Modelled from the spec: the declaration of \<^verbatim>\<open>gojira.Issue\<close> belongs to the package
  \<^verbatim>\<open>go-jira-client\<close> and is not among the sources. The fields are the ones
  \<^verbatim>\<open>formatMessage\<close> selects; the ticket record of the specification lists the same ones
  and calls the assignee nullable. Each nested struct that a selector chain goes through
  (\<^verbatim>\<open>Fields\<close>, \<^verbatim>\<open>Status\<close>, \<^verbatim>\<open>Reporter\<close>, \<^verbatim>\<open>Assignee\<close>) is a pointer that may be
  nil, so that the results below hold whichever of them the package declares as
  pointers. \<^verbatim>\<open>CreatedAt\<close> is a \<^verbatim>\<open>time.Time\<close>, kept as the \<^verbatim>\<open>int64\<close> that its method
  \<^verbatim>\<open>Unix\<close> returns.
\<close>

record User =
  DisplayName :: string

record IssueStatus =
  Name :: string

record IssueFields =
  Status :: "IssueStatus option"
  Summary :: string
  Reporter :: "User option"
  Assignee :: "User option"
  Created :: string

record Issue =
  Key :: string
  Fields :: "IssueFields option"
  CreatedAt :: "64 word"

definition Unix :: "64 word \<Rightarrow> int" where
  "Unix t = sint t"

text \<open>
  \<^verbatim>\<open>formatMessage\<close> writes three \<^verbatim>\<open>Sprintf\<close> results to a buffer. The verb \<^verbatim>\<open>%s\<close>
  inserts its string argument as it is. A selector through a nil pointer panics while
  the arguments are evaluated, before anything is returned.
\<close>

definition formatMessage :: "environ \<Rightarrow> Issue \<Rightarrow> panic + string" where
  "formatMessage env issue =
     bind_res (deref (Fields issue)) (\<lambda>fields.
     bind_res (deref (Status fields)) (\<lambda>status.
     bind_res (deref (Reporter fields)) (\<lambda>reporter.
     bind_res (deref (Assignee fields)) (\<lambda>assignee.
       Inr (''> <'' @ getJiraURL env (Key issue) @ ''|'' @ Key issue
              @ ''> :traffic_light: *Status:* '' @ Name status
              @ '' :memo: *Summary:* '' @ Summary fields @ [CHR 0x0A]
            @ ''> :bust_in_silhouette: *Creator:* '' @ DisplayName reporter
              @ '', *Assignee:* '' @ DisplayName assignee @ [CHR 0x0A]
            @ ''> :calendar: *Created:* <!date^'' @ fmt_d (Unix (CreatedAt issue))
              @ ''^{date} at {time}|'' @ Created fields @ ''>'')))))"

text \<open>
  \<^verbatim>\<open>gojira.NewJira\<close> stores its arguments. \<^verbatim>\<open>jira.Issue\<close> performs the HTTP request; it
  returns a single \<^verbatim>\<open>gojira.Issue\<close> and no error value, so the only way it can report
  a failure to \<^verbatim>\<open>getJiraIssue\<close> is a panic. What it answers is a parameter of the model.
\<close>

record Auth =
  Login :: string
  Password :: string

record Jira =
  BaseUrl :: string
  ApiPath :: string
  ActivityPath :: string
  JiraAuth :: Auth

definition NewJira :: "string \<Rightarrow> string \<Rightarrow> string \<Rightarrow> Auth \<Rightarrow> Jira" where
  "NewJira baseUrl apiPath activityPath auth =
     \<lparr> BaseUrl = baseUrl, ApiPath = apiPath, ActivityPath = activityPath, JiraAuth = auth \<rparr>"

subsection \<open>The Slack client\<close>

text \<open>
  Modelled from the spec: \<^verbatim>\<open>slack.Msg\<close>, \<^verbatim>\<open>slack.PostMessageParameters\<close> and
  \<^verbatim>\<open>PostMessage\<close> belong to the Slack client package and are not among the sources.
  Of a message the program reads \<^verbatim>\<open>Text\<close>, \<^verbatim>\<open>Channel\<close>, \<^verbatim>\<open>Username\<close> and
  \<^verbatim>\<open>SubType\<close>; every other field is the record's extension. The send operation of the
  specification returns an error; \<open>None\<close> is the nil error.
\<close>

record Msg =
  Text :: string
  Channel :: string
  Username :: string
  SubType :: string

record PostMessageParameters =
  Username :: string
  Markdown :: bool

record Client =
  token :: string

definition slack_New :: "string \<Rightarrow> Client" where
  "slack_New tok = \<lparr> token = tok \<rparr>"

definition getSlackAPI :: "environ \<Rightarrow> Client" where
  "getSlackAPI env = slack_New (SlackAPIKey (getConfig env))"

text \<open>
  The two services the program talks to: what the tracker answers to a request for an
  issue, and what the chat service answers to a message posted. Either call may panic.
\<close>

record world =
  jira_Issue :: "Jira \<Rightarrow> string \<Rightarrow> panic + Issue"
  slack_PostMessage ::
    "Client \<Rightarrow> string \<Rightarrow> string \<Rightarrow> PostMessageParameters \<Rightarrow> panic + string option"

definition getJiraIssue :: "world \<Rightarrow> environ \<Rightarrow> string \<Rightarrow> panic + Issue" where
  "getJiraIssue w env issueID =
     (let jiraAPIPath = ''/rest/api/latest'';
          jiraActivityPath = [];
          jira = NewJira (JiraBaseURL (getConfig env)) jiraAPIPath jiraActivityPath
                   \<lparr> Login = JiraUsername (getConfig env),
                     Password = JiraPassword (getConfig env) \<rparr>
      in jira_Issue w jira issueID)"

subsection \<open>\<^verbatim>\<open>shouldIgnoreMessage\<close>\<close>

definition shouldIgnoreMessage :: "environ \<Rightarrow> 'a Msg_scheme \<Rightarrow> bool" where
  "shouldIgnoreMessage env message =
     (Msg.Username message = BotConfig.Username (getConfig env)
      \<or> SubType message = ''bot_message'')"

subsection \<open>Effects: the log and the messages posted\<close>

text \<open>
  What a run leaves behind is a trace: the lines written with \<^verbatim>\<open>log.Print\<close> and
  \<^verbatim>\<open>log.Printf\<close>, and the calls of \<^verbatim>\<open>PostMessage\<close> that returned, each with the error
  it returned. A statement of the program takes the trace so far and gives back its
  outcome (a panic or a value) and the trace after it.
\<close>

datatype event =
    Log string
  | Post string string PostMessageParameters "string option"

type_synonym 'a go = "event list \<Rightarrow> (panic + 'a) \<times> event list"

definition return_go :: "'a \<Rightarrow> 'a go" where
  "return_go v = (\<lambda>t. (Inr v, t))"

definition bind_go :: "'a go \<Rightarrow> ('a \<Rightarrow> 'b go) \<Rightarrow> 'b go" where
  "bind_go m f = (\<lambda>t. case m t of (Inl e, t') \<Rightarrow> (Inl e, t') | (Inr v, t') \<Rightarrow> f v t')"

definition lift_res :: "panic + 'a \<Rightarrow> 'a go" where
  "lift_res r = (\<lambda>t. (r, t))"

definition log_Print :: "string \<Rightarrow> unit go" where
  "log_Print line = (\<lambda>t. (Inr (), t @ [Log line]))"

text \<open>
  \<^verbatim>\<open>defer func() { if e := recover(); e != nil { ... } }()\<close>: when the body panics, the
  deferred function stops the panic and runs the handler, and the function returns
  normally; when the body returns, \<^verbatim>\<open>recover\<close> gives nil and nothing is done.
\<close>

definition defer_recover :: "(panic \<Rightarrow> unit go) \<Rightarrow> unit go \<Rightarrow> unit go" where
  "defer_recover handler body =
     (\<lambda>t. case body t of (Inl e, t') \<Rightarrow> handler e t' | (Inr v, t') \<Rightarrow> (Inr v, t'))"

definition PostMessage ::
  "world \<Rightarrow> Client \<Rightarrow> string \<Rightarrow> string \<Rightarrow> PostMessageParameters \<Rightarrow> (string option) go" where
  "PostMessage w api channel text1 params =
     (\<lambda>t. case slack_PostMessage w api channel text1 params of
             Inl e \<Rightarrow> (Inl e, t)
           | Inr err \<Rightarrow> (Inr err, t @ [Post channel text1 params err]))"

subsection \<open>\<^verbatim>\<open>respondToIssueMentioned\<close> and \<^verbatim>\<open>handleIncomingMessage\<close>\<close>

text \<open>
  The body of \<^verbatim>\<open>respondToIssueMentioned\<close> after the \<^verbatim>\<open>defer\<close>. The argument
  \<^verbatim>\<open>formatMessage(issueData)\<close> is evaluated before \<^verbatim>\<open>PostMessage\<close> is called, and what
  \<^verbatim>\<open>PostMessage\<close> returns is dropped.
\<close>

definition respond_body :: "world \<Rightarrow> environ \<Rightarrow> string \<Rightarrow> string \<Rightarrow> unit go" where
  "respond_body w env channel issueID =
     (let api = getSlackAPI env;
          params = \<lparr> Username = BotConfig.Username (getConfig env), Markdown = True \<rparr>
      in bind_go (lift_res (getJiraIssue w env issueID)) (\<lambda>issueData.
         bind_go (lift_res (formatMessage env issueData)) (\<lambda>text1.
         bind_go (PostMessage w api channel text1 params) (\<lambda>_. return_go ()))))"

definition respondToIssueMentioned :: "world \<Rightarrow> environ \<Rightarrow> string \<Rightarrow> string \<Rightarrow> unit go" where
  "respondToIssueMentioned w env channel issueID =
     defer_recover
       (\<lambda>e. log_Print (''Exception responding to issue '' @ issueID @ '': '' @ panic_text e))
       (respond_body w env channel issueID)"

text \<open>
  The loop \<^verbatim>\<open>for i := 0; i < len(matches); i++\<close> of \<^verbatim>\<open>handleIncomingMessage\<close>, from
  the current index on. The format string of its \<^verbatim>\<open>log.Printf\<close> is the whole line; an
  issue key has no \<^verbatim>\<open>%\<close> in it (\<open>extractIssueIDs_no_percent\<close>), so the line is
  printed as it is.
\<close>

fun dispatch :: "world \<Rightarrow> environ \<Rightarrow> string \<Rightarrow> string list \<Rightarrow> unit go" where
  "dispatch w env channel [] = return_go ()"
| "dispatch w env channel (issueID # rest) =
     bind_go (log_Print (''handleMessage: Identified '' @ issueID @ '' in message'')) (\<lambda>_.
     bind_go (respondToIssueMentioned w env channel issueID) (\<lambda>_.
     dispatch w env channel rest))"

definition handleIncomingMessage :: "world \<Rightarrow> environ \<Rightarrow> 'a Msg_scheme \<Rightarrow> unit go" where
  "handleIncomingMessage w env message =
     (let messageText = Text message in
      if shouldIgnoreMessage env message then log_Print ''handleMessage: Ignoring message''
      else
        let matches = extractIssueIDs messageText
        in dispatch w env (Channel message) (elems matches))"

subsection \<open>Reading the output\<close>

text \<open>
  The lines of a text are what stands between its line feeds
  (\<^verbatim>\<open>strings.Split(s, "\n")\<close>). The three lines of a reply, as the specification
  describes them: the link line with the browse URL, the key, the status name and the
  summary; the line of the reporter and the assignee; the line of the creation time with
  the date token that carries the epoch seconds and the creation string of the tracker.
\<close>

fun lines_of :: "string \<Rightarrow> string list" where
  "lines_of [] = [[]]"
| "lines_of (c # cs) =
     (if c = CHR 0x0A then [] # lines_of cs
      else (case lines_of cs of [] \<Rightarrow> [[c]] | l # ls \<Rightarrow> (c # l) # ls))"

definition link_line :: "string \<Rightarrow> string \<Rightarrow> string \<Rightarrow> string \<Rightarrow> string" where
  "link_line trackerBaseURL key status_name summary =
     ''> <'' @ (trackerBaseURL @ ''/browse/'' @ key) @ ''|'' @ key
       @ ''> :traffic_light: *Status:* '' @ status_name @ '' :memo: *Summary:* '' @ summary"

definition people_line :: "string \<Rightarrow> string \<Rightarrow> string" where
  "people_line reporter assignee =
     ''> :bust_in_silhouette: *Creator:* '' @ reporter @ '', *Assignee:* '' @ assignee"

definition created_line :: "int \<Rightarrow> string \<Rightarrow> string" where
  "created_line epoch created =
     ''> :calendar: *Created:* <!date^'' @ fmt_d epoch @ ''^{date} at {time}|'' @ created
       @ ''>''"

text \<open>
  The filter in the words of the specification: a message is not processed when its
  author is the display name of the bot, not processed when its subtype is
  \<^verbatim>\<open>bot_message\<close>, and processed otherwise.
\<close>

definition shouldProcess_spec :: "'a Msg_scheme \<Rightarrow> string \<Rightarrow> bool" where
  "shouldProcess_spec msg displayName =
     (if Msg.Username msg = displayName then False
      else if SubType msg = ''bot_message'' then False
      else True)"

text \<open>
  The position of the first occurrence of an element in a list (the length of the list
  when there is none), and the form of an issue key: one or more word characters, a
  hyphen, one or more digits.
\<close>

definition first_index :: "'a list \<Rightarrow> 'a \<Rightarrow> nat" where
  "first_index xs x = length (takeWhile (\<lambda>y. y \<noteq> x) xs)"

definition issue_shaped :: "string \<Rightarrow> bool" where
  "issue_shaped e =
     (let w = takeWhile is_word_char e; r = dropWhile is_word_char e
      in w \<noteq> [] \<and> (case r of [] \<Rightarrow> False
                       | c # d \<Rightarrow> c = CHR ''-'' \<and> d \<noteq> [] \<and> list_all is_digit d))"

text \<open>
  Whether every struct that \<^verbatim>\<open>formatMessage\<close> selects through is there.
\<close>

definition all_present :: "Issue \<Rightarrow> bool" where
  "all_present issue =
     (case Fields issue of None \<Rightarrow> False
      | Some f \<Rightarrow> Status f \<noteq> None \<and> Reporter f \<noteq> None \<and> Assignee f \<noteq> None)"

text \<open>
  The replies in a trace are its \<open>Post\<close> events. \<open>responds\<close> says that the body of
  \<^verbatim>\<open>respondToIssueMentioned\<close> runs to its end for an identifier: the fetch, the formatting
  and the call of \<^verbatim>\<open>PostMessage\<close> all return. \<open>pass_events\<close> is what one pass of the loop
  of \<^verbatim>\<open>handleIncomingMessage\<close> leaves in the trace.
\<close>

fun is_post :: "event \<Rightarrow> bool" where
  "is_post (Post channel text1 params err) = True"
| "is_post (Log line) = False"

fun is_log :: "event \<Rightarrow> bool" where
  "is_log (Log line) = True"
| "is_log (Post channel text1 params err) = False"

definition posts :: "event list \<Rightarrow> event list" where
  "posts t = filter is_post t"

definition responds :: "world \<Rightarrow> environ \<Rightarrow> string \<Rightarrow> string \<Rightarrow> bool" where
  "responds w env channel issueID =
     (case fst (respond_body w env channel issueID []) of Inl e \<Rightarrow> False | Inr u \<Rightarrow> True)"

definition pass_events :: "world \<Rightarrow> environ \<Rightarrow> string \<Rightarrow> string \<Rightarrow> event list" where
  "pass_events w env channel issueID =
     Log (''handleMessage: Identified '' @ issueID @ '' in message'') #
     (case fst (respond_body w env channel issueID []) of
        Inl e \<Rightarrow> [Log (''Exception responding to issue '' @ issueID @ '': '' @ panic_text e)]
      | Inr u \<Rightarrow> snd (respond_body w env channel issueID []))"

subsection \<open>Example inputs\<close>

definition example_env :: environ where
  "example_env = Map.empty(''JIRA_BASEURL'' \<mapsto> ''https://jira.example.com'')"

definition ticket :: "string \<Rightarrow> string \<Rightarrow> User option \<Rightarrow> Issue" where
  "ticket key summary assignee =
     \<lparr> Key = key,
       Fields = Some \<lparr> Status = Some \<lparr> Name = ''Open'' \<rparr>, Summary = summary,
                       Reporter = Some \<lparr> DisplayName = ''Ann'' \<rparr>, Assignee = assignee,
                       Created = ''2016-03-01'' \<rparr>,
       CreatedAt = 1456826400 \<rparr>"

definition bob :: "User option" where
  "bob = Some \<lparr> DisplayName = ''Bob'' \<rparr>"

text \<open>
  Four worlds. In the first the tracker cannot be reached; in the second both services
  answer; in the third the tracker fails for the issue \<^verbatim>\<open>AAA-1\<close> only; in the fourth the
  chat service returns an error for the reply about \<^verbatim>\<open>AAA-1\<close> and accepts every other
  message.
\<close>

definition tracker_down :: world where
  "tracker_down =
     \<lparr> jira_Issue = (\<lambda>jira issueID. Inl (Panic ''Error while building jira request'')),
       slack_PostMessage = (\<lambda>api channel text1 params. Inr None) \<rparr>"

definition tracker_up :: world where
  "tracker_up =
     \<lparr> jira_Issue = (\<lambda>jira issueID. Inr (ticket issueID ''Fix it'' bob)),
       slack_PostMessage = (\<lambda>api channel text1 params. Inr None) \<rparr>"

definition tracker_partial :: world where
  "tracker_partial =
     \<lparr> jira_Issue = (\<lambda>jira issueID.
         if issueID = ''AAA-1'' then Inl (Panic ''Error while building jira request'')
         else Inr (ticket issueID ''Fix it'' bob)),
       slack_PostMessage = (\<lambda>api channel text1 params. Inr None) \<rparr>"

definition slack_refusing :: world where
  "slack_refusing =
     \<lparr> jira_Issue = (\<lambda>jira issueID. Inr (ticket issueID ''Fix it'' bob)),
       slack_PostMessage = (\<lambda>api channel text1 params.
         if Inr text1 = formatMessage example_env (ticket ''AAA-1'' ''Fix it'' bob)
         then Inr (Some ''msg_too_long'') else Inr None) \<rparr>"

definition chat :: "string \<Rightarrow> Msg" where
  "chat text1 = \<lparr> Text = text1, Channel = ''C1'', Username = ''alice'', SubType = [] \<rparr>"

definition reply_text :: "string \<Rightarrow> string" where
  "reply_text key =
     ''> <https://jira.example.com/browse/'' @ key @ ''|'' @ key
       @ ''> :traffic_light: *Status:* Open :memo: *Summary:* Fix it'' @ [CHR 0x0A]
     @ ''> :bust_in_silhouette: *Creator:* Ann, *Assignee:* Bob'' @ [CHR 0x0A]
     @ ''> :calendar: *Created:* <!date^1456826400^{date} at {time}|2016-03-01>''"

definition reply_params :: PostMessageParameters where
  "reply_params = \<lparr> Username = ''JiraBot'', Markdown = True \<rparr>"

section \<open>Verification\<close>

subsection \<open>The message filter\<close>

text \<open>
  C5. A message is ignored exactly when its \<^verbatim>\<open>Username\<close> is the display name of the bot
  or its \<^verbatim>\<open>SubType\<close> is \<^verbatim>\<open>bot_message\<close>, whatever its text, its channel and its other
  fields are; it is processed otherwise. The display name is the constant \<^verbatim>\<open>JiraBot\<close>.
  This is the filter of the specification, and \<^verbatim>\<open>handleIncomingMessage\<close> only logs a
  line for a message that is filtered out. The predicate is a function of the
  environment and the message: it reads and writes nothing else.
\<close>

theorem shouldIgnoreMessage_decides:
  "shouldIgnoreMessage env
     \<lparr> Text = t, Channel = c, Username = u, SubType = st, \<dots> = more \<rparr>
   = (u = BotConfig.Username (getConfig env) \<or> st = ''bot_message'')
   \<and> BotConfig.Username (getConfig env) = ''JiraBot''
   \<and> shouldProcess_spec message (BotConfig.Username (getConfig env))
       = (\<not> shouldIgnoreMessage env message)
   \<and> handleIncomingMessage w env message tr =
       (if shouldProcess_spec message (BotConfig.Username (getConfig env))
        then dispatch w env (Channel message) (elems (extractIssueIDs (Text message))) tr
        else (Inr (), tr @ [Log ''handleMessage: Ignoring message'']))"
  by (simp add: shouldIgnoreMessage_def shouldProcess_spec_def getConfig_def
      handleIncomingMessage_def log_Print_def)

text \<open>
  C9. The decision depends on the \<^verbatim>\<open>Username\<close> and the \<^verbatim>\<open>SubType\<close> of the message
  only: two messages that agree on both get the same decision, whatever else they hold.
\<close>

theorem shouldIgnoreMessage_depends_on_two_fields:
  "Msg.Username m1 = Msg.Username m2 \<Longrightarrow> SubType m1 = SubType m2
   \<Longrightarrow> shouldIgnoreMessage env m1 = shouldIgnoreMessage env m2"
  by (simp add: shouldIgnoreMessage_def)

theorem shouldIgnoreMessage_depends_on_two_fields_witness:
  "shouldIgnoreMessage Map.empty
     \<lparr> Text = ''see ABC-1'', Channel = ''C1'', Username = ''alice'', SubType = [] \<rparr>
   = shouldIgnoreMessage Map.empty
     \<lparr> Text = ''hello'', Channel = ''C2'', Username = ''alice'', SubType = [] \<rparr>"
  by (rule shouldIgnoreMessage_depends_on_two_fields) simp_all

subsection \<open>The configuration\<close>

text \<open>
  C8, as the specification states it: the configuration is read once at startup, and a
  change of the environment after startup is not observed. It fails: \<^verbatim>\<open>getConfig\<close> reads
  the environment at every call, so the browse URL built after \<^verbatim>\<open>JIRA_BASEURL\<close> has
  changed is another one than the URL built before.
\<close>

theorem getConfig_observes_environment_change:
  "getJiraURL ((Map.empty(''JIRA_BASEURL'' \<mapsto> ''https://a''))(''JIRA_BASEURL'' \<mapsto> ''https://b'')) ''K-1''
   \<noteq> getJiraURL (Map.empty(''JIRA_BASEURL'' \<mapsto> ''https://a'')) ''K-1''"
  by (simp add: getJiraURL_def getConfig_def Getenv_def)

text \<open>
  C8, amended. The display name is the same at every use. The other four fields are the
  values that the variables \<^verbatim>\<open>SLACK_API_KEY\<close>, \<^verbatim>\<open>JIRA_USERNAME\<close>, \<^verbatim>\<open>JIRA_PASSWORD\<close> and
  \<^verbatim>\<open>JIRA_BASEURL\<close> have at the moment of the use: two uses observe the same configuration
  exactly when the environment agrees on these four variables at both moments.
\<close>

theorem getConfig_rereads_environment:
  "BotConfig.Username (getConfig env1) = ''JiraBot''
   \<and> (getConfig env1 = getConfig env2 \<longleftrightarrow>
        (Getenv env1 ''SLACK_API_KEY'' = Getenv env2 ''SLACK_API_KEY''
         \<and> Getenv env1 ''JIRA_USERNAME'' = Getenv env2 ''JIRA_USERNAME''
         \<and> Getenv env1 ''JIRA_PASSWORD'' = Getenv env2 ''JIRA_PASSWORD''
         \<and> Getenv env1 ''JIRA_BASEURL'' = Getenv env2 ''JIRA_BASEURL''))"
  by (auto simp add: getConfig_def)

subsection \<open>The reply formatter\<close>

lemma lines_of_no_LF: "CHR 0x0A \<notin> set a \<Longrightarrow> lines_of a = [a]"
  by (induction a) auto

lemma lines_of_append_LF:
  "CHR 0x0A \<notin> set a \<Longrightarrow> lines_of (a @ CHR 0x0A # rest) = a # lines_of rest"
  by (induction a) auto

lemma lines_of_three:
  "CHR 0x0A \<notin> set a \<Longrightarrow> CHR 0x0A \<notin> set b \<Longrightarrow> CHR 0x0A \<notin> set c
   \<Longrightarrow> lines_of (a @ [CHR 0x0A] @ b @ [CHR 0x0A] @ c) = [a, b, c]"
  using lines_of_append_LF [of a "b @ CHR 0x0A # c"] lines_of_append_LF [of b c]
    lines_of_no_LF [of c]
  by simp

lemma of_char_digit_char: "(of_char (digit_char n) :: nat) = 48 + n mod 10"
  by (simp add: digit_char_def)

lemma digit_char_not_LF: "digit_char n \<noteq> CHR 0x0A"
proof
  assume "digit_char n = CHR 0x0A"
  then have "(of_char (digit_char n) :: nat) = of_char (CHR 0x0A)" by simp
  then show False by (simp add: of_char_digit_char)
qed

lemma decimal_no_LF: "CHR 0x0A \<notin> set (decimal n)"
proof (induction n rule: decimal.induct)
  case (1 n)
  show ?case
  proof (cases "n < 10")
    case True
    then show ?thesis using digit_char_not_LF [of n] by (subst decimal.simps) auto
  next
    case False
    then show ?thesis using 1 digit_char_not_LF [of n] by (subst decimal.simps) auto
  qed
qed

lemma fmt_d_no_LF: "CHR 0x0A \<notin> set (fmt_d i)"
  by (simp add: fmt_d_def decimal_no_LF)

lemma fmt_d_example: "fmt_d 1456826400 = ''1456826400''"
  by (simp add: fmt_d_def decimal.simps digit_char_def char_of_def bit_Suc_0_iff)

lemma link_line_no_LF:
  "CHR 0x0A \<notin> set url \<Longrightarrow> CHR 0x0A \<notin> set key
   \<Longrightarrow> CHR 0x0A \<notin> set st \<Longrightarrow> CHR 0x0A \<notin> set su
   \<Longrightarrow> CHR 0x0A \<notin> set (link_line url key st su)"
  by (simp add: link_line_def)

lemma people_line_no_LF:
  "CHR 0x0A \<notin> set r \<Longrightarrow> CHR 0x0A \<notin> set a \<Longrightarrow> CHR 0x0A \<notin> set (people_line r a)"
  by (simp add: people_line_def)

lemma created_line_no_LF:
  "CHR 0x0A \<notin> set c \<Longrightarrow> CHR 0x0A \<notin> set (created_line e c)"
  by (simp add: created_line_def fmt_d_no_LF)

text \<open>
  \<^verbatim>\<open>formatMessage\<close> by cases: the first nil pointer on the way stops it with a panic.
\<close>

lemma formatMessage_cases:
  "formatMessage env issue =
    (case Fields issue of None \<Rightarrow> Inl NilDeref
     | Some f \<Rightarrow> (case Status f of None \<Rightarrow> Inl NilDeref
       | Some st \<Rightarrow> (case Reporter f of None \<Rightarrow> Inl NilDeref
         | Some rep \<Rightarrow> (case Assignee f of None \<Rightarrow> Inl NilDeref
           | Some asg \<Rightarrow>
               Inr (link_line (JiraBaseURL (getConfig env)) (Key issue) (Name st) (Summary f)
                    @ [CHR 0x0A] @ people_line (DisplayName rep) (DisplayName asg)
                    @ [CHR 0x0A] @ created_line (sint (CreatedAt issue)) (Created f))))))"
  by (simp add: formatMessage_def link_line_def people_line_def created_line_def
      getJiraURL_def Unix_def split: option.splits)

text \<open>
  C6, as the specification states it: \<^verbatim>\<open>formatMessage\<close> returns a string for every
  ticket, also for one whose assignee is nil. It fails: the selector
  \<^verbatim>\<open>issue.Fields.Assignee.DisplayName\<close> is applied with no test before it, and on a
  ticket with no assignee it panics; no string is returned.
\<close>

theorem formatMessage_nil_assignee_panics:
  "formatMessage example_env (ticket ''K-1'' ''Fix it'' None) = Inl NilDeref"
  by (simp add: formatMessage_cases ticket_def)

text \<open>
  C6, amended. \<^verbatim>\<open>formatMessage\<close> returns a string exactly for the tickets whose fields,
  status, reporter and assignee are all there; for every other ticket, one with a nil
  assignee among them, it panics with a nil dereference.
\<close>

theorem formatMessage_succeeds_iff_present:
  "(\<exists>s. formatMessage env issue = Inr s) = all_present issue
   \<and> (formatMessage env issue = Inl NilDeref) = (\<not> all_present issue)"
  by (simp add: formatMessage_cases all_present_def split: option.splits)

text \<open>
  C7, as the specification states it: for every ticket the result has exactly three
  lines. It fails on a ticket whose summary holds a line feed, which is copied into the
  first line as it is (four lines), and on a ticket with no assignee (no result).
\<close>

theorem formatMessage_not_always_three_lines:
  "map_sum id (\<lambda>s. length (lines_of s))
     (formatMessage example_env
        (ticket ''K-1'' (''Fix'' @ [CHR 0x0A] @ ''it'') (Some \<lparr> DisplayName = ''Bob'' \<rparr>)))
   = Inr 4
   \<and> map_sum id lines_of (formatMessage example_env (ticket ''K-1'' ''Fix it'' None))
     = Inl NilDeref"
  by (simp add: formatMessage_cases ticket_def example_env_def getConfig_def Getenv_def
      link_line_def people_line_def created_line_def fmt_d_example)

text \<open>
  C7, amended. For every ticket whose fields, status, reporter and assignee are there,
  the result is the link line (browse URL \<open>base URL + /browse/ + key\<close>, key, status
  name, summary), a line feed, the line of the reporter and the assignee, a line feed,
  and the line with the date token of the epoch seconds and the creation string. These
  are exactly the three lines of the result when none of the strings put in (base URL,
  key, status name, summary, the two display names, creation string) holds a line feed.
\<close>

theorem formatMessage_three_lines:
  assumes "Fields issue = Some f" and "Status f = Some st" and "Reporter f = Some rep"
    and "Assignee f = Some asg"
  shows "formatMessage env issue =
           Inr (link_line (JiraBaseURL (getConfig env)) (Key issue) (Name st) (Summary f)
                @ [CHR 0x0A] @ people_line (DisplayName rep) (DisplayName asg)
                @ [CHR 0x0A] @ created_line (sint (CreatedAt issue)) (Created f))
         \<and> (CHR 0x0A \<notin> set (JiraBaseURL (getConfig env)) \<union> set (Key issue) \<union> set (Name st)
                \<union> set (Summary f) \<union> set (DisplayName rep) \<union> set (DisplayName asg)
                \<union> set (Created f)
              \<longrightarrow> map_sum id lines_of (formatMessage env issue) =
                  Inr [link_line (JiraBaseURL (getConfig env)) (Key issue) (Name st) (Summary f),
                       people_line (DisplayName rep) (DisplayName asg),
                       created_line (sint (CreatedAt issue)) (Created f)])"
proof (intro conjI impI)
  show eq: "formatMessage env issue =
           Inr (link_line (JiraBaseURL (getConfig env)) (Key issue) (Name st) (Summary f)
                @ [CHR 0x0A] @ people_line (DisplayName rep) (DisplayName asg)
                @ [CHR 0x0A] @ created_line (sint (CreatedAt issue)) (Created f))"
    using assms by (simp add: formatMessage_cases)
  assume nl: "CHR 0x0A \<notin> set (JiraBaseURL (getConfig env)) \<union> set (Key issue) \<union> set (Name st)
                \<union> set (Summary f) \<union> set (DisplayName rep) \<union> set (DisplayName asg)
                \<union> set (Created f)"
  have a: "CHR 0x0A \<notin> set (link_line (JiraBaseURL (getConfig env)) (Key issue) (Name st) (Summary f))"
    using nl by (intro link_line_no_LF) simp_all
  have b: "CHR 0x0A \<notin> set (people_line (DisplayName rep) (DisplayName asg))"
    using nl by (intro people_line_no_LF) simp_all
  have c: "CHR 0x0A \<notin> set (created_line (sint (CreatedAt issue)) (Created f))"
    using nl by (intro created_line_no_LF) simp_all
  show "map_sum id lines_of (formatMessage env issue) =
                  Inr [link_line (JiraBaseURL (getConfig env)) (Key issue) (Name st) (Summary f),
                       people_line (DisplayName rep) (DisplayName asg),
                       created_line (sint (CreatedAt issue)) (Created f)]"
    unfolding eq using lines_of_three [OF a b c] by simp
qed

theorem formatMessage_three_lines_witness:
  "formatMessage example_env (ticket ''K-1'' ''Fix it'' (Some \<lparr> DisplayName = ''Bob'' \<rparr>)) =
     Inr (''> <https://jira.example.com/browse/K-1|K-1> :traffic_light: *Status:* Open :memo: *Summary:* Fix it''
          @ [CHR 0x0A] @ ''> :bust_in_silhouette: *Creator:* Ann, *Assignee:* Bob''
          @ [CHR 0x0A] @ ''> :calendar: *Created:* <!date^1456826400^{date} at {time}|2016-03-01>'')
   \<and> map_sum id lines_of
        (formatMessage example_env (ticket ''K-1'' ''Fix it'' (Some \<lparr> DisplayName = ''Bob'' \<rparr>))) =
     Inr [''> <https://jira.example.com/browse/K-1|K-1> :traffic_light: *Status:* Open :memo: *Summary:* Fix it'',
          ''> :bust_in_silhouette: *Creator:* Ann, *Assignee:* Bob'',
          ''> :calendar: *Created:* <!date^1456826400^{date} at {time}|2016-03-01>'']"
  using formatMessage_three_lines [of "ticket ''K-1'' ''Fix it'' (Some \<lparr> DisplayName = ''Bob'' \<rparr>)"
      "\<lparr> Status = Some \<lparr> Name = ''Open'' \<rparr>, Summary = ''Fix it'',
         Reporter = Some \<lparr> DisplayName = ''Ann'' \<rparr>,
         Assignee = Some \<lparr> DisplayName = ''Bob'' \<rparr>, Created = ''2016-03-01'' \<rparr>"
      "\<lparr> Name = ''Open'' \<rparr>" "\<lparr> DisplayName = ''Ann'' \<rparr>" "\<lparr> DisplayName = ''Bob'' \<rparr>"
      example_env]
  by (simp add: ticket_def example_env_def getConfig_def Getenv_def
      link_line_def people_line_def created_line_def fmt_d_example)

subsection \<open>The dispatch loop\<close>

text \<open>
  The body of \<^verbatim>\<open>respondToIssueMentioned\<close> by cases: a panic of the fetch, of the
  formatting or of the send call ends it and leaves no event; otherwise it leaves the one
  \<open>Post\<close> event of its call of \<^verbatim>\<open>PostMessage\<close>, whatever error that call returned.
\<close>

lemma respond_body_cases:
  "respond_body w env channel issueID t =
     (case getJiraIssue w env issueID of
        Inl e \<Rightarrow> (Inl e, t)
      | Inr issueData \<Rightarrow>
          (case formatMessage env issueData of
             Inl e \<Rightarrow> (Inl e, t)
           | Inr text1 \<Rightarrow>
               (case slack_PostMessage w (getSlackAPI env) channel text1
                       \<lparr> Username = BotConfig.Username (getConfig env), Markdown = True \<rparr> of
                  Inl e \<Rightarrow> (Inl e, t)
                | Inr err \<Rightarrow>
                    (Inr (), t @ [Post channel text1
                       \<lparr> Username = BotConfig.Username (getConfig env), Markdown = True \<rparr> err]))))"
  by (simp add: respond_body_def bind_go_def lift_res_def PostMessage_def return_go_def
      split: sum.splits)

lemma respond_body_panics_iff:
  "fst (respond_body w env channel issueID []) = Inl e \<longleftrightarrow>
     getJiraIssue w env issueID = Inl e
     \<or> (\<exists>issueData. getJiraIssue w env issueID = Inr issueData
           \<and> (formatMessage env issueData = Inl e
               \<or> (\<exists>text1. formatMessage env issueData = Inr text1
                     \<and> slack_PostMessage w (getSlackAPI env) channel text1
                          \<lparr> Username = BotConfig.Username (getConfig env), Markdown = True \<rparr>
                        = Inl e)))"
  by (auto simp add: respond_body_cases split: sum.splits)

lemma respond_body_trace:
  "respond_body w env channel issueID t =
     (fst (respond_body w env channel issueID []), t @ snd (respond_body w env channel issueID []))"
  by (simp add: respond_body_cases split: sum.splits)

lemma respond_body_panic_silent:
  "fst (respond_body w env channel issueID []) = Inl e
   \<Longrightarrow> snd (respond_body w env channel issueID []) = []"
  by (auto simp add: respond_body_cases split: sum.splits)

lemma respond_body_one_post:
  "fst (respond_body w env channel issueID []) = Inr u
   \<Longrightarrow> length (posts (snd (respond_body w env channel issueID []))) = 1"
  by (auto simp add: respond_body_cases posts_def split: sum.splits)

lemma respondToIssueMentioned_eq:
  "respondToIssueMentioned w env channel issueID t =
     (Inr (), t @ tl (pass_events w env channel issueID))"
proof (cases "fst (respond_body w env channel issueID [])")
  case (Inl e)
  then show ?thesis
    using respond_body_trace [of w env channel issueID t]
      respond_body_panic_silent [OF Inl]
    by (simp add: respondToIssueMentioned_def defer_recover_def log_Print_def pass_events_def)
next
  case (Inr u)
  then show ?thesis
    using respond_body_trace [of w env channel issueID t]
    by (simp add: respondToIssueMentioned_def defer_recover_def pass_events_def)
qed

lemma dispatch_eq:
  "dispatch w env channel ids t =
     (Inr (), t @ concat (map (pass_events w env channel) ids))"
proof (induction ids arbitrary: t)
  case Nil
  show ?case by (simp add: return_go_def)
next
  case (Cons issueID rest)
  have "pass_events w env channel issueID =
      Log (''handleMessage: Identified '' @ issueID @ '' in message'')
        # tl (pass_events w env channel issueID)"
    by (simp add: pass_events_def)
  then show ?case
    using Cons [of "t @ pass_events w env channel issueID"]
    by (simp add: bind_go_def log_Print_def respondToIssueMentioned_eq)
qed

lemma posts_pass_events:
  "length (posts (pass_events w env channel issueID)) =
     (if responds w env channel issueID then 1 else 0)"
proof (cases "fst (respond_body w env channel issueID [])")
  case (Inl e)
  then show ?thesis by (simp add: pass_events_def posts_def responds_def)
next
  case (Inr u)
  then show ?thesis
    using respond_body_one_post [OF Inr]
    by (simp add: pass_events_def posts_def responds_def)
qed

lemma posts_append: "posts (a @ b) = posts a @ posts b"
  by (simp add: posts_def)

lemma posts_dispatch_events:
  "length (posts (concat (map (pass_events w env channel) ids))) =
     length (filter (responds w env channel) ids)"
  by (induction ids) (simp_all add: posts_append posts_pass_events, simp add: posts_def)

lemma handleIncomingMessage_eq:
  "handleIncomingMessage w env message t =
     (if shouldIgnoreMessage env message
      then (Inr (), t @ [Log ''handleMessage: Ignoring message''])
      else (Inr (), t @ concat (map (pass_events w env (Channel message))
                                  (elems (extractIssueIDs (Text message))))))"
  by (simp add: handleIncomingMessage_def log_Print_def dispatch_eq)

lemma pass_events_panic:
  "fst (respond_body w env channel issueID []) = Inl e \<Longrightarrow>
   pass_events w env channel issueID =
     [Log (''handleMessage: Identified '' @ issueID @ '' in message''),
      Log (''Exception responding to issue '' @ issueID @ '': '' @ panic_text e)]"
  by (simp add: pass_events_def)

lemma pass_events_returns:
  "respond_body w env channel issueID [] = (Inr (), evs) \<Longrightarrow>
   pass_events w env channel issueID =
     Log (''handleMessage: Identified '' @ issueID @ '' in message'') # evs"
  by (simp add: pass_events_def)

text \<open>The example worlds, evaluated.\<close>

lemma extract_proj: "extractIssueIDs ''check PROJ-42 please'' = Slice [''PROJ-42'']"
  by code_simp

lemma extract_two: "extractIssueIDs ''AAA-1 BBB-2'' = Slice [''AAA-1'', ''BBB-2'']"
  by code_simp

lemma chat_fields: "Text (chat text1) = text1" "Channel (chat text1) = ''C1''"
  by (simp_all add: chat_def)

lemma ignore_chat: "\<not> shouldIgnoreMessage env (chat text1)"
  by (simp add: shouldIgnoreMessage_def chat_def getConfig_def)

lemma formatMessage_ticket:
  "formatMessage example_env (ticket key ''Fix it'' bob) = Inr (reply_text key)"
  by (simp add: formatMessage_cases ticket_def bob_def example_env_def getConfig_def Getenv_def
      link_line_def people_line_def created_line_def fmt_d_example reply_text_def)

lemma reply_params_eq:
  "\<lparr> Username = BotConfig.Username (getConfig env), Markdown = True \<rparr> = reply_params"
  by (simp add: reply_params_def getConfig_def)

lemma respond_tracker_up:
  "respond_body tracker_up example_env channel key [] =
     (Inr (), [Post channel (reply_text key) reply_params None])"
  by (simp add: respond_body_cases getJiraIssue_def tracker_up_def formatMessage_ticket
      reply_params_eq)

lemma respond_tracker_partial_A:
  "respond_body tracker_partial example_env channel ''AAA-1'' [] =
     (Inl (Panic ''Error while building jira request''), [])"
  by (simp add: respond_body_cases getJiraIssue_def tracker_partial_def)

lemma respond_tracker_partial_B:
  "respond_body tracker_partial example_env channel ''BBB-2'' [] =
     (Inr (), [Post channel (reply_text ''BBB-2'') reply_params None])"
  by (simp add: respond_body_cases getJiraIssue_def tracker_partial_def formatMessage_ticket
      reply_params_eq)

lemma respond_slack_refusing_A:
  "respond_body slack_refusing example_env channel ''AAA-1'' [] =
     (Inr (), [Post channel (reply_text ''AAA-1'') reply_params (Some ''msg_too_long'')])"
  by (simp add: respond_body_cases getJiraIssue_def slack_refusing_def formatMessage_ticket
      reply_params_eq)

lemma respond_slack_refusing_B:
  "respond_body slack_refusing example_env channel ''BBB-2'' [] =
     (Inr (), [Post channel (reply_text ''BBB-2'') reply_params None])"
  by (simp add: respond_body_cases getJiraIssue_def slack_refusing_def formatMessage_ticket
      reply_params_eq reply_text_def)

text \<open>
  C1, as the specification states it: a message that passes the filter gets as many
  replies as it has distinct identifiers, even if a fetch fails. It fails: when the
  tracker panics for the one identifier of the message, the panic is recovered and
  logged and nothing is posted.
\<close>

theorem handleIncomingMessage_no_reply_when_fetch_fails:
  "\<not> shouldIgnoreMessage example_env (chat ''check PROJ-42 please'')
   \<and> elems (extractIssueIDs (Text (chat ''check PROJ-42 please''))) = [''PROJ-42'']
   \<and> handleIncomingMessage tracker_down example_env (chat ''check PROJ-42 please'') [] =
       (Inr (), [Log ''handleMessage: Identified PROJ-42 in message'',
                 Log ''Exception responding to issue PROJ-42: Error while building jira request''])"
  by (simp add: ignore_chat handleIncomingMessage_eq extract_proj chat_fields pass_events_def
      respond_body_cases getJiraIssue_def tracker_down_def)

text \<open>
  C1, amended. For a message that passes the filter, \<^verbatim>\<open>handleIncomingMessage\<close> returns
  normally, and the number of replies it posts is the number of identifiers of the
  deduplicated sequence for which fetch, formatting and the send call all return: one
  reply for each of them and none for an identifier whose processing panics. So there
  are at most as many replies as identifiers, and exactly as many when no processing
  panics.
\<close>

theorem handleIncomingMessage_reply_count:
  assumes "\<not> shouldIgnoreMessage env message"
  shows "fst (handleIncomingMessage w env message t) = Inr ()
    \<and> length (posts (snd (handleIncomingMessage w env message t))) =
        length (posts t)
        + length (filter (responds w env (Channel message))
                    (elems (extractIssueIDs (Text message))))
    \<and> length (posts (snd (handleIncomingMessage w env message t))) \<le>
        length (posts t) + length (elems (extractIssueIDs (Text message)))
    \<and> (list_all (responds w env (Channel message)) (elems (extractIssueIDs (Text message)))
        \<longrightarrow> length (posts (snd (handleIncomingMessage w env message t))) =
            length (posts t) + length (elems (extractIssueIDs (Text message))))"
proof -
  let ?ids = "elems (extractIssueIDs (Text message))"
  have n: "length (posts (snd (handleIncomingMessage w env message t))) =
        length (posts t) + length (filter (responds w env (Channel message)) ?ids)"
    using assms by (simp add: handleIncomingMessage_eq posts_append posts_dispatch_events)
  have le: "length (filter (responds w env (Channel message)) ?ids) \<le> length ?ids"
    by (rule length_filter_le)
  have all: "list_all (responds w env (Channel message)) ?ids
      \<Longrightarrow> filter (responds w env (Channel message)) ?ids = ?ids"
    by (simp add: list_all_iff)
  show ?thesis
    using assms n le all by (simp add: handleIncomingMessage_eq)
qed

theorem handleIncomingMessage_reply_count_witness:
  "\<not> shouldIgnoreMessage example_env (chat ''AAA-1 BBB-2'')
   \<and> fst (handleIncomingMessage tracker_up example_env (chat ''AAA-1 BBB-2'') []) = Inr ()
   \<and> length (posts (snd (handleIncomingMessage tracker_up example_env (chat ''AAA-1 BBB-2'') [])))
       = 2
   \<and> length (elems (extractIssueIDs (Text (chat ''AAA-1 BBB-2'')))) = 2"
  using handleIncomingMessage_reply_count [of example_env "chat ''AAA-1 BBB-2''" tracker_up "[]"]
  by (simp add: ignore_chat chat_fields extract_two responds_def respond_tracker_up posts_def)

text \<open>
  C2, as the specification states it: whichever of fetch, format and send fails for the
  first identifier, the failure is caught and logged. It fails for a send fault that
  \<^verbatim>\<open>PostMessage\<close> reports through the error it returns: the call statement drops the
  returned values, so nothing is caught and no line about it is logged.
\<close>

theorem send_error_is_not_logged:
  "elems (extractIssueIDs (Text (chat ''AAA-1 BBB-2''))) = [''AAA-1'', ''BBB-2'']
   \<and> slack_PostMessage slack_refusing (getSlackAPI example_env) ''C1'' (reply_text ''AAA-1'')
        reply_params = Inr (Some ''msg_too_long'')
   \<and> filter is_log (snd (handleIncomingMessage slack_refusing example_env
                           (chat ''AAA-1 BBB-2'') [])) =
       [Log ''handleMessage: Identified AAA-1 in message'',
        Log ''handleMessage: Identified BBB-2 in message'']"
proof (intro conjI)
  show "elems (extractIssueIDs (Text (chat ''AAA-1 BBB-2''))) = [''AAA-1'', ''BBB-2'']"
    by (simp add: chat_fields extract_two)
  show "slack_PostMessage slack_refusing (getSlackAPI example_env) ''C1'' (reply_text ''AAA-1'')
        reply_params = Inr (Some ''msg_too_long'')"
    by (simp add: slack_refusing_def formatMessage_ticket)
  show "filter is_log (snd (handleIncomingMessage slack_refusing example_env
                           (chat ''AAA-1 BBB-2'') [])) =
       [Log ''handleMessage: Identified AAA-1 in message'',
        Log ''handleMessage: Identified BBB-2 in message'']"
    by (simp add: chat_fields extract_two ignore_chat handleIncomingMessage_eq
        pass_events_returns [OF respond_slack_refusing_A]
        pass_events_returns [OF respond_slack_refusing_B])
qed

text \<open>
  C2, amended. Let the identifiers of a message that passes the filter be \<open>[A, B]\<close>, let
  the processing of \<open>A\<close> panic (in the fetch, in the formatting or inside the send call,
  see \<open>respond_body_panics_iff\<close>) and let the processing of \<open>B\<close> succeed. Then the panic is
  recovered inside \<^verbatim>\<open>respondToIssueMentioned\<close> and logged with the identifier \<open>A\<close>, exactly
  one reply is posted, the one for \<open>B\<close>, \<^verbatim>\<open>handleIncomingMessage\<close> returns normally, and the
  events of \<open>B\<close> are the ones that \<open>B\<close> alone gives.
\<close>

theorem dispatch_isolates_panics:
  assumes ids: "elems (extractIssueIDs (Text message)) = [A, B]"
    and pass: "\<not> shouldIgnoreMessage env message"
    and failA: "fst (respond_body w env (Channel message) A []) = Inl e"
    and okB: "respond_body w env (Channel message) B [] =
                (Inr (), [Post (Channel message) textB params None])"
  shows "handleIncomingMessage w env message [] =
           (Inr (), [Log (''handleMessage: Identified '' @ A @ '' in message''),
                     Log (''Exception responding to issue '' @ A @ '': '' @ panic_text e),
                     Log (''handleMessage: Identified '' @ B @ '' in message''),
                     Post (Channel message) textB params None])
       \<and> posts (snd (handleIncomingMessage w env message [])) =
           [Post (Channel message) textB params None]
       \<and> dispatch w env (Channel message) [B] [] =
           (Inr (), [Log (''handleMessage: Identified '' @ B @ '' in message''),
                     Post (Channel message) textB params None])"
proof (intro conjI)
  note evB = pass_events_returns [OF okB]
  show tr: "handleIncomingMessage w env message [] =
           (Inr (), [Log (''handleMessage: Identified '' @ A @ '' in message''),
                     Log (''Exception responding to issue '' @ A @ '': '' @ panic_text e),
                     Log (''handleMessage: Identified '' @ B @ '' in message''),
                     Post (Channel message) textB params None])"
    using ids pass failA by (simp add: handleIncomingMessage_eq pass_events_panic evB)
  show "posts (snd (handleIncomingMessage w env message [])) =
           [Post (Channel message) textB params None]"
    unfolding tr by (simp add: posts_def)
  show "dispatch w env (Channel message) [B] [] =
           (Inr (), [Log (''handleMessage: Identified '' @ B @ '' in message''),
                     Post (Channel message) textB params None])"
    unfolding dispatch_eq by (simp add: evB)
qed

theorem dispatch_isolates_panics_witness:
  "handleIncomingMessage tracker_partial example_env (chat ''AAA-1 BBB-2'') [] =
     (Inr (), [Log ''handleMessage: Identified AAA-1 in message'',
               Log ''Exception responding to issue AAA-1: Error while building jira request'',
               Log ''handleMessage: Identified BBB-2 in message'',
               Post ''C1'' (reply_text ''BBB-2'') reply_params None])
   \<and> posts (snd (handleIncomingMessage tracker_partial example_env (chat ''AAA-1 BBB-2'') []))
       = [Post ''C1'' (reply_text ''BBB-2'') reply_params None]
   \<and> dispatch tracker_partial example_env ''C1'' [''BBB-2''] [] =
     (Inr (), [Log ''handleMessage: Identified BBB-2 in message'',
               Post ''C1'' (reply_text ''BBB-2'') reply_params None])"
proof -
  have ids: "elems (extractIssueIDs (Text (chat ''AAA-1 BBB-2''))) = [''AAA-1'', ''BBB-2'']"
    by (simp add: chat_fields extract_two)
  have pass: "\<not> shouldIgnoreMessage example_env (chat ''AAA-1 BBB-2'')"
    by (rule ignore_chat)
  have failA: "fst (respond_body tracker_partial example_env (Channel (chat ''AAA-1 BBB-2''))
                      ''AAA-1'' []) = Inl (Panic ''Error while building jira request'')"
    by (simp add: respond_tracker_partial_A)
  have okB: "respond_body tracker_partial example_env (Channel (chat ''AAA-1 BBB-2''))
               ''BBB-2'' [] =
             (Inr (), [Post (Channel (chat ''AAA-1 BBB-2'')) (reply_text ''BBB-2'')
                         reply_params None])"
    by (simp add: respond_tracker_partial_B)
  from dispatch_isolates_panics [OF ids pass failA okB] show ?thesis
    by (simp add: chat_fields posts_def del: dispatch.simps)
qed

subsection \<open>The identifier extractor\<close>

text \<open>
  What the matcher returns for the issue pattern. One or more characters of a class,
  greedy: every result splits off a non-empty prefix of characters of the class.
\<close>

lemma backtrack_Plus_CharClass_Nil: "backtrack (Plus (CharClass f)) p [] = []"
  by (subst backtrack.simps(8)) (simp add: backtrack.simps(3))

lemma backtrack_Plus_CharClass_Cons:
  "backtrack (Plus (CharClass f)) p (c # cs) =
     (if f c then backtrack (Plus (CharClass f)) (Some c) cs @ [(Some c, cs)] else [])"
  by (subst backtrack.simps(8)) (simp add: backtrack.simps(4))

lemma backtrack_Plus_CharClass_sound:
  "q \<in> set (backtrack (Plus (CharClass f)) p s)
   \<Longrightarrow> \<exists>w. w \<noteq> [] \<and> list_all f w \<and> s = w @ snd q \<and> fst q = Some (last w)"
proof (induction s arbitrary: p)
  case Nil
  then show ?case by (simp add: backtrack_Plus_CharClass_Nil)
next
  case (Cons c cs)
  show ?case
  proof (cases "f c")
    case False
    with Cons.prems show ?thesis by (simp add: backtrack_Plus_CharClass_Cons)
  next
    case True
    with Cons.prems have "q \<in> set (backtrack (Plus (CharClass f)) (Some c) cs) \<or> q = (Some c, cs)"
      by (auto simp add: backtrack_Plus_CharClass_Cons)
    then show ?thesis
    proof
      assume "q \<in> set (backtrack (Plus (CharClass f)) (Some c) cs)"
      from Cons.IH [OF this] obtain w where
        w: "w \<noteq> []" "list_all f w" "cs = w @ snd q" "fst q = Some (last w)" by blast
      show ?thesis
        by (rule exI [of _ "c # w"]) (use w True in simp)
    next
      assume "q = (Some c, cs)"
      then show ?thesis
        by (intro exI [of _ "[c]"]) (use True in simp)
    qed
  qed
qed

lemma backtrack_Concat_iff:
  "q \<in> set (backtrack (Concat r1 r2) p s) \<longleftrightarrow>
     (\<exists>q1 \<in> set (backtrack r1 p s). q \<in> set (backtrack r2 (fst q1) (snd q1)))"
  by (simp add: backtrack.simps(7))

lemma backtrack_WordBoundary_iff:
  "q \<in> set (backtrack WordBoundary p s) \<longleftrightarrow>
     q = (p, s) \<and> is_word_at p \<noteq> is_word_at (next_char s)"
  by (auto simp add: backtrack.simps(5))

lemma backtrack_Lit_iff:
  "q \<in> set (backtrack (Lit a) p s) \<longleftrightarrow> (\<exists>cs. s = a # cs \<and> q = (Some a, cs))"
  by (cases s) (auto simp add: backtrack.simps(1,2))

lemma is_digit_word: "is_digit c \<Longrightarrow> is_word_char c"
  by (simp add: is_digit_def is_word_char_def Let_def)

lemma hyphen_not_word: "\<not> is_word_char CHR ''-''"
  by (simp add: is_word_char_def)

text \<open>
  A match of the issue pattern has the form of an issue key, begins where no word
  character stands before it, and ends where no word character follows.
\<close>

lemma backtrack_issue_re_shape:
  assumes "q \<in> set (backtrack issue_re p s)"
  shows "\<exists>w d. s = w @ CHR ''-'' # d @ snd q \<and> w \<noteq> [] \<and> list_all is_word_char w
           \<and> d \<noteq> [] \<and> list_all is_digit d \<and> \<not> is_word_at p
           \<and> \<not> is_word_at (next_char (snd q)) \<and> fst q = Some (last d)"
proof -
  from assms obtain q1 where
    q1: "q1 \<in> set (backtrack WordBoundary p s)"
    and r1: "q \<in> set (backtrack
              (Concat (Capture (Plus (CharClass is_word_char)))
                 (Concat (Lit CHR ''-'')
                    (Concat (Capture (Plus (CharClass is_digit))) WordBoundary)))
              (fst q1) (snd q1))"
    unfolding issue_re_def backtrack_Concat_iff [of q WordBoundary] by blast
  from q1 have q1_eq: "q1 = (p, s)" and wb1: "is_word_at p \<noteq> is_word_at (next_char s)"
    by (simp_all add: backtrack_WordBoundary_iff)
  from r1 obtain q2 where
    q2: "q2 \<in> set (backtrack (Plus (CharClass is_word_char)) p s)"
    and r2: "q \<in> set (backtrack
              (Concat (Lit CHR ''-'')
                 (Concat (Capture (Plus (CharClass is_digit))) WordBoundary))
              (fst q2) (snd q2))"
    unfolding q1_eq backtrack_Concat_iff [of q "Capture (Plus (CharClass is_word_char))"]
    by (auto simp add: backtrack.simps(6))
  from backtrack_Plus_CharClass_sound [OF q2] obtain w where
    w: "w \<noteq> []" "list_all is_word_char w" "s = w @ snd q2" "fst q2 = Some (last w)"
    by blast
  from r2 obtain q3 where
    q3: "q3 \<in> set (backtrack (Lit CHR ''-'') (fst q2) (snd q2))"
    and r3: "q \<in> set (backtrack
              (Concat (Capture (Plus (CharClass is_digit))) WordBoundary)
              (fst q3) (snd q3))"
    unfolding backtrack_Concat_iff [of q "Lit CHR ''-''"] by blast
  from q3 obtain cs where cs: "snd q2 = CHR ''-'' # cs" "q3 = (Some CHR ''-'', cs)"
    by (auto simp add: backtrack_Lit_iff)
  from r3 obtain q4 where
    q4: "q4 \<in> set (backtrack (Plus (CharClass is_digit)) (Some CHR ''-'') cs)"
    and r4: "q \<in> set (backtrack WordBoundary (fst q4) (snd q4))"
    unfolding cs backtrack_Concat_iff [of q "Capture (Plus (CharClass is_digit))"]
    by (auto simp add: backtrack.simps(6))
  from backtrack_Plus_CharClass_sound [OF q4] obtain d where
    d: "d \<noteq> []" "list_all is_digit d" "cs = d @ snd q4" "fst q4 = Some (last d)"
    by blast
  from r4 have q_eq: "q = q4"
    and wb2: "is_word_at (fst q4) \<noteq> is_word_at (next_char (snd q4))"
    by (simp_all add: backtrack_WordBoundary_iff)
  have "is_word_char (hd w)"
    using w(1,2) by (cases w) simp_all
  then have "is_word_at (next_char s)"
    using w(1,3) by (cases w) simp_all
  with wb1 have b1: "\<not> is_word_at p" by simp
  have "is_digit (last d)"
    using d(1,2) by (simp add: list_all_iff)
  then have "is_word_at (fst q4)"
    using d(4) by (simp add: is_digit_word)
  with wb2 have b2: "\<not> is_word_at (next_char (snd q4))" by simp
  show ?thesis
    by (intro exI [of _ w] exI [of _ d]) (use w d cs q_eq b1 b2 in simp)
qed

text \<open>
  The pattern never matches the empty string, so the loop of \<^verbatim>\<open>allMatches\<close> always goes
  on behind the match it found.
\<close>

lemma backtrack_issue_re_Nil: "backtrack issue_re p [] = []"
proof (cases "backtrack issue_re p []")
  case Nil
  then show ?thesis .
next
  case (Cons q qs)
  then have "q \<in> set (backtrack issue_re p [])" by simp
  from backtrack_issue_re_shape [OF this] show ?thesis by simp
qed

lemma doExecute_issue_re:
  "doExecute issue_re p s = Some (skipped, matched, p', s') \<Longrightarrow>
     s = skipped @ matched @ s'
     \<and> (\<exists>w d. matched = w @ CHR ''-'' # d \<and> w \<noteq> [] \<and> list_all is_word_char w
               \<and> d \<noteq> [] \<and> list_all is_digit d)
     \<and> \<not> is_word_at (if skipped = [] then p else Some (last skipped))
     \<and> \<not> is_word_at (next_char s')
     \<and> p' = Some (last matched)"
proof (induction s arbitrary: p skipped)
  case Nil
  then show ?case by (simp add: backtrack_issue_re_Nil)
next
  case (Cons c cs)
  show ?case
  proof (cases "backtrack issue_re p (c # cs)")
    case Nil
    with Cons.prems obtain sk where
      rec: "doExecute issue_re (Some c) cs = Some (sk, matched, p', s')"
      and sk: "skipped = c # sk"
      by (auto split: option.splits)
    from Cons.IH [OF rec] show ?thesis
      unfolding sk by (cases "sk = []") simp_all
  next
    case (Cons q qs)
    with Cons.prems have res: "skipped = []"
      "matched = take (length (c # cs) - length (snd q)) (c # cs)" "p' = fst q" "s' = snd q"
      by auto
    have "q \<in> set (backtrack issue_re p (c # cs))" using Cons by simp
    from backtrack_issue_re_shape [OF this] obtain w d where
      wd: "c # cs = w @ CHR ''-'' # d @ snd q" "w \<noteq> []" "list_all is_word_char w"
        "d \<noteq> []" "list_all is_digit d" "\<not> is_word_at p"
        "\<not> is_word_at (next_char (snd q))" "fst q = Some (last d)"
      by blast
    have len: "length (c # cs) - length (snd q) = length (w @ CHR ''-'' # d)"
      by (subst wd(1)) simp
    have m: "matched = w @ CHR ''-'' # d"
      unfolding res(2) len by (subst wd(1)) simp
    show ?thesis
      using wd m res by auto
  qed
qed

lemma allMatches_issue_re_unfold:
  "allMatches issue_re adj p s =
     (case doExecute issue_re p s of
        None \<Rightarrow> []
      | Some (skipped, matched, p', s') \<Rightarrow> matched # allMatches issue_re True p' s')"
proof (cases "doExecute issue_re p s")
  case None
  then show ?thesis by (subst allMatches.simps) simp
next
  case (Some r)
  obtain skipped matched p' s' where r: "r = (skipped, matched, p', s')"
    by (cases r) auto
  from doExecute_issue_re [OF Some [unfolded r]]
  have "s = skipped @ matched @ s'" "matched \<noteq> []" by auto
  then have "length s' < length s" by (cases matched) auto
  with \<open>matched \<noteq> []\<close> show ?thesis
    by (subst allMatches.simps) (simp add: Some r)
qed

lemma allMatches_issue_re_sound:
  "m \<in> set (allMatches issue_re adj p s) \<Longrightarrow>
     \<exists>pre post w d. s = pre @ m @ post \<and> m = w @ CHR ''-'' # d \<and> w \<noteq> []
        \<and> list_all is_word_char w \<and> d \<noteq> [] \<and> list_all is_digit d
        \<and> \<not> is_word_at (if pre = [] then p else Some (last pre))
        \<and> \<not> is_word_at (next_char post)"
proof (induction "length s" arbitrary: s p adj rule: less_induct)
  case less
  show ?case
  proof (cases "doExecute issue_re p s")
    case None
    with less.prems show ?thesis by (subst (asm) allMatches_issue_re_unfold) simp
  next
    case (Some r)
    obtain skipped matched p' s' where r: "r = (skipped, matched, p', s')"
      by (cases r) auto
    from doExecute_issue_re [OF Some [unfolded r]] obtain w d where
      ex: "s = skipped @ matched @ s'" "matched = w @ CHR ''-'' # d" "w \<noteq> []"
        "list_all is_word_char w" "d \<noteq> []" "list_all is_digit d"
        "\<not> is_word_at (if skipped = [] then p else Some (last skipped))"
        "\<not> is_word_at (next_char s')" "p' = Some (last matched)"
      by blast
    from less.prems have "m = matched \<or> m \<in> set (allMatches issue_re True p' s')"
      by (subst (asm) allMatches_issue_re_unfold) (simp add: Some r)
    then show ?thesis
    proof
      assume "m = matched"
      then have "s = skipped @ m @ s' \<and> m = w @ CHR ''-'' # d \<and> w \<noteq> []
        \<and> list_all is_word_char w \<and> d \<noteq> [] \<and> list_all is_digit d
        \<and> \<not> is_word_at (if skipped = [] then p else Some (last skipped))
        \<and> \<not> is_word_at (next_char s')"
        using ex by simp
      then show ?thesis by blast
    next
      assume rest: "m \<in> set (allMatches issue_re True p' s')"
      have "length s' < length s" using ex(1,2) by simp
      from less.hyps [OF this rest] obtain pre post w' d' where
        ih: "s' = pre @ m @ post" "m = w' @ CHR ''-'' # d'" "w' \<noteq> []"
          "list_all is_word_char w'" "d' \<noteq> []" "list_all is_digit d'"
          "\<not> is_word_at (if pre = [] then p' else Some (last pre))"
          "\<not> is_word_at (next_char post)"
        by blast
      have nonempty: "matched \<noteq> []" using ex(2) by simp
      have "last (skipped @ matched @ pre) = (if pre = [] then last matched else last pre)"
        using nonempty by simp
      then have before: "\<not> is_word_at (Some (last (skipped @ matched @ pre)))"
        using ih(7) ex(9) by (cases "pre = []") simp_all
      have "s = (skipped @ matched @ pre) @ m @ post \<and> m = w' @ CHR ''-'' # d' \<and> w' \<noteq> []
        \<and> list_all is_word_char w' \<and> d' \<noteq> [] \<and> list_all is_digit d'
        \<and> \<not> is_word_at (if skipped @ matched @ pre = [] then p
                          else Some (last (skipped @ matched @ pre)))
        \<and> \<not> is_word_at (next_char post)"
        using ex(1) ih nonempty before by simp
      then show ?thesis by blast
    qed
  qed
qed

text \<open>Upper-casing, and the form of an issue key.\<close>

lemma first_index_Cons:
  "first_index (u # us) x = (if x = u then 0 else Suc (first_index us x))"
  by (auto simp add: first_index_def)

lemma issue_shaped_iff:
  "issue_shaped e \<longleftrightarrow>
     (\<exists>w d. e = w @ CHR ''-'' # d \<and> w \<noteq> [] \<and> list_all is_word_char w
            \<and> d \<noteq> [] \<and> list_all is_digit d)"
proof
  assume "issue_shaped e"
  then obtain d where
    w: "takeWhile is_word_char e \<noteq> []"
    and r: "dropWhile is_word_char e = CHR ''-'' # d" "d \<noteq> []" "list_all is_digit d"
    by (auto simp add: issue_shaped_def Let_def split: list.splits)
  have "e = takeWhile is_word_char e @ dropWhile is_word_char e" by simp
  then have "e = takeWhile is_word_char e @ CHR ''-'' # d" using r(1) by simp
  moreover have "list_all is_word_char (takeWhile is_word_char e)"
    by (simp add: list_all_iff) (meson set_takeWhileD)
  ultimately show "\<exists>w d. e = w @ CHR ''-'' # d \<and> w \<noteq> [] \<and> list_all is_word_char w
            \<and> d \<noteq> [] \<and> list_all is_digit d"
    using w r by blast
next
  assume "\<exists>w d. e = w @ CHR ''-'' # d \<and> w \<noteq> [] \<and> list_all is_word_char w
            \<and> d \<noteq> [] \<and> list_all is_digit d"
  then obtain w d where
    e: "e = w @ CHR ''-'' # d" "w \<noteq> []" "list_all is_word_char w" "d \<noteq> []"
      "list_all is_digit d"
    by blast
  have t: "takeWhile is_word_char e = w"
    unfolding e(1) using e(3) by (simp add: list_all_iff takeWhile_append2 hyphen_not_word)
  have dr: "dropWhile is_word_char e = CHR ''-'' # d"
    unfolding e(1) using e(3) by (simp add: list_all_iff dropWhile_append2 hyphen_not_word)
  show "issue_shaped e"
    using e(2-5) by (simp add: issue_shaped_def t dr)
qed

lemma of_char_upper_byte:
  "is_lower c \<Longrightarrow> (of_char (upper_byte c) :: nat) = of_char c - 32"
proof -
  assume l: "is_lower c"
  then have "(of_char c :: nat) - 32 < 256" by (auto simp add: is_lower_def Let_def)
  then show ?thesis using l by (simp add: upper_byte_def)
qed

lemma not_lower_upper_byte: "\<not> is_lower (upper_byte c)"
proof (cases "is_lower c")
  case True
  from of_char_upper_byte [OF True] True show ?thesis
    by (auto simp add: is_lower_def Let_def)
next
  case False
  then show ?thesis by (simp add: upper_byte_def)
qed

lemma upper_byte_fixed: "\<not> is_lower c \<Longrightarrow> upper_byte c = c"
  by (simp add: upper_byte_def)

lemma ToUpper_idem: "ToUpper (ToUpper s) = ToUpper s"
  by (simp add: ToUpper_def upper_byte_fixed not_lower_upper_byte)

lemma ToUpper_no_lower: "list_all (\<lambda>c. \<not> is_lower c) (ToUpper s)"
  by (simp add: ToUpper_def list_all_iff not_lower_upper_byte)

lemma upper_byte_word: "is_word_char c \<Longrightarrow> is_word_char (upper_byte c)"
proof (cases "is_lower c")
  case True
  from of_char_upper_byte [OF True] True show ?thesis
    by (auto simp add: is_lower_def is_word_char_def Let_def)
next
  case False
  assume "is_word_char c"
  with False show ?thesis by (simp add: upper_byte_def)
qed

lemma upper_byte_digit: "is_digit c \<Longrightarrow> upper_byte c = c"
  by (rule upper_byte_fixed) (simp add: is_digit_def is_lower_def Let_def)

lemma upper_byte_hyphen: "upper_byte CHR ''-'' = CHR ''-''"
  by (rule upper_byte_fixed) (simp add: is_lower_def)

lemma ToUpper_shaped: "issue_shaped m \<Longrightarrow> issue_shaped (ToUpper m)"
proof -
  assume "issue_shaped m"
  then obtain w d where
    m: "m = w @ CHR ''-'' # d" "w \<noteq> []" "list_all is_word_char w" "d \<noteq> []"
      "list_all is_digit d"
    unfolding issue_shaped_iff by blast
  have "map upper_byte d = d"
    using m(5) by (simp add: list_all_iff upper_byte_digit map_idI)
  then have "ToUpper m = map upper_byte w @ CHR ''-'' # d"
    by (simp add: ToUpper_def m(1) upper_byte_hyphen)
  moreover have "list_all is_word_char (map upper_byte w)"
    using m(3) by (simp add: list_all_iff upper_byte_word)
  ultimately have "ToUpper m = map upper_byte w @ CHR ''-'' # d \<and> map upper_byte w \<noteq> []
      \<and> list_all is_word_char (map upper_byte w) \<and> d \<noteq> [] \<and> list_all is_digit d"
    using m(2,4,5) by simp
  then show ?thesis
    unfolding issue_shaped_iff by blast
qed

text \<open>
  The loop of \<^verbatim>\<open>extractIssueIDs\<close>: when the map \<^verbatim>\<open>encountered\<close> marks exactly the
  elements of the result so far, the loop appends the upper-cased matches that are not
  there yet, each once, in the order of their first occurrences.
\<close>

lemma elems_FindAllString: "elems (FindAllString re s) = allMatches re False None s"
  by (simp add: FindAllString_def split: list.splits)

lemma extract_loop_inv:
  assumes "\<forall>x. map_index enc x = (x \<in> set acc)" and "distinct acc"
  shows "\<exists>ext. extract_loop ms enc (Slice acc) = Slice (acc @ ext)
           \<and> distinct (acc @ ext)
           \<and> set ext = set (map ToUpper ms) - set acc
           \<and> sorted_wrt (\<lambda>x y. first_index (map ToUpper ms) x < first_index (map ToUpper ms) y) ext"
  using assms
proof (induction ms arbitrary: enc acc)
  case Nil
  then show ?case by simp
next
  case (Cons m ms)
  let ?u = "ToUpper m"
  let ?U = "map ToUpper ms"
  show ?case
  proof (cases "?u \<in> set acc")
    case True
    from Cons.IH [OF Cons.prems] obtain ext where
      ext: "extract_loop ms enc (Slice acc) = Slice (acc @ ext)" "distinct (acc @ ext)"
        "set ext = set ?U - set acc"
        "sorted_wrt (\<lambda>x y. first_index ?U x < first_index ?U y) ext"
      by blast
    have loop: "extract_loop (m # ms) enc (Slice acc) = Slice (acc @ ext)"
      using True Cons.prems(1) ext(1) by (simp add: Let_def)
    have neq: "\<And>x. x \<in> set ext \<Longrightarrow> x \<noteq> ?u"
      using ext(3) True by auto
    have "sorted_wrt (\<lambda>x y. first_index (?u # ?U) x < first_index (?u # ?U) y) ext"
      by (rule sorted_wrt_mono_rel [OF _ ext(4)]) (simp add: first_index_Cons neq)
    moreover have "set ext = set (map ToUpper (m # ms)) - set acc"
      using ext(3) True by auto
    ultimately show ?thesis
      using loop ext(2) by auto
  next
    case False
    have inv: "\<forall>x. map_index (enc(?u \<mapsto> True)) x = (x \<in> set (acc @ [?u]))"
      using Cons.prems(1) by (auto simp add: map_index_def)
    have dist: "distinct (acc @ [?u])"
      using Cons.prems(2) False by simp
    from Cons.IH [OF inv dist] obtain ext where
      ext: "extract_loop ms (enc(?u \<mapsto> True)) (Slice (acc @ [?u])) = Slice ((acc @ [?u]) @ ext)"
        "distinct ((acc @ [?u]) @ ext)"
        "set ext = set ?U - set (acc @ [?u])"
        "sorted_wrt (\<lambda>x y. first_index ?U x < first_index ?U y) ext"
      by blast
    have loop: "extract_loop (m # ms) enc (Slice acc) = Slice (acc @ (?u # ext))"
      using False Cons.prems(1) ext(1) by (simp add: Let_def)
    have neq: "\<And>x. x \<in> set ext \<Longrightarrow> x \<noteq> ?u"
      using ext(3) by auto
    have tail: "sorted_wrt (\<lambda>x y. first_index (?u # ?U) x < first_index (?u # ?U) y) ext"
      by (rule sorted_wrt_mono_rel [OF _ ext(4)]) (simp add: first_index_Cons neq)
    have head: "\<forall>y \<in> set ext. first_index (?u # ?U) ?u < first_index (?u # ?U) y"
      using neq by (simp add: first_index_Cons)
    have "sorted_wrt (\<lambda>x y. first_index (?u # ?U) x < first_index (?u # ?U) y) (?u # ext)"
      using head tail by simp
    moreover have "set (?u # ext) = set (map ToUpper (m # ms)) - set acc"
      using ext(3) False by auto
    moreover have "distinct (acc @ (?u # ext))"
      using ext(2) by simp
    ultimately show ?thesis
      using loop by (intro exI [of _ "?u # ext"]) simp
  qed
qed

lemma extractIssueIDs_props:
  "\<exists>out. extractIssueIDs text = Slice out \<and> distinct out
     \<and> set out = set (map ToUpper (allMatches issue_re False None text))
     \<and> sorted_wrt (\<lambda>x y. first_index (map ToUpper (allMatches issue_re False None text)) x
                        < first_index (map ToUpper (allMatches issue_re False None text)) y) out"
proof -
  have "\<forall>x. map_index Map.empty x = (x \<in> set [])" by (simp add: map_index_def)
  from extract_loop_inv [OF this, of "allMatches issue_re False None text"]
  show ?thesis
    by (simp add: extractIssueIDs_def elems_FindAllString)
qed

lemma extract_order_example:
  "extractIssueIDs ''see ABC-1 and abc-1 and DEF-2'' = Slice [''ABC-1'', ''DEF-2'']"
  by code_simp

lemma extract_flanked_example: "extractIssueIDs ''XABC-123X'' = Slice []"
  by code_simp

lemma extract_punctuation_example: "extractIssueIDs ''(ABC-123)'' = Slice [''ABC-123'']"
  by code_simp

lemma extract_lower_example: "extractIssueIDs ''see abc-1'' = Slice [''ABC-1'']"
  by code_simp

lemma FindAllString_none_example: "FindAllString issue_re ''hello world'' = NilSlice"
  by code_simp

text \<open>
  C3. \<^verbatim>\<open>extractIssueIDs\<close> upper-cases every match and keeps the first occurrence of each:
  no identifier is twice in the result, the result holds exactly the upper-cased
  matches, and they stand in the order of their first occurrences among the upper-cased
  matches. On \<^verbatim>\<open>see ABC-1 and abc-1 and DEF-2\<close> the result is \<^verbatim>\<open>ABC-1\<close>, \<^verbatim>\<open>DEF-2\<close>.
\<close>

theorem extractIssueIDs_first_occurrence_order:
  "distinct (elems (extractIssueIDs text))
   \<and> set (elems (extractIssueIDs text)) =
       set (map ToUpper (elems (FindAllString issue_re text)))
   \<and> sorted_wrt
       (\<lambda>x y. first_index (map ToUpper (elems (FindAllString issue_re text))) x
              < first_index (map ToUpper (elems (FindAllString issue_re text))) y)
       (elems (extractIssueIDs text))
   \<and> extractIssueIDs ''see ABC-1 and abc-1 and DEF-2'' = Slice [''ABC-1'', ''DEF-2'']"
  using extractIssueIDs_props [of "text"] extract_order_example
  by (auto simp add: elems_FindAllString)

lemma extractIssueIDs_from_match:
  assumes "e \<in> set (elems (extractIssueIDs text))"
  shows "\<exists>m \<in> set (allMatches issue_re False None text). e = ToUpper m"
  using extractIssueIDs_props [of "text"] assms by auto

text \<open>
  No identifier holds a \<^verbatim>\<open>%\<close>: as the format string of \<^verbatim>\<open>log.Printf\<close> in
  \<^verbatim>\<open>handleIncomingMessage\<close> the line is printed as it is.
\<close>

lemma extractIssueIDs_no_percent:
  assumes "e \<in> set (elems (extractIssueIDs message))"
  shows "CHR ''%'' \<notin> set e"
proof -
  from extractIssueIDs_from_match [OF assms] obtain m where
    m: "m \<in> set (allMatches issue_re False None message)" "e = ToUpper m"
    by blast
  from allMatches_issue_re_sound [OF m(1)] have "issue_shaped m"
    unfolding issue_shaped_iff by blast
  then have "issue_shaped e" unfolding m(2) by (rule ToUpper_shaped)
  then obtain w d where
    e: "e = w @ CHR ''-'' # d" "list_all is_word_char w" "list_all is_digit d"
    unfolding issue_shaped_iff by blast
  have "\<not> is_word_char CHR ''%''" "\<not> is_digit CHR ''%''"
    by (simp_all add: is_word_char_def is_digit_def)
  then show ?thesis
    using e by (auto simp add: list_all_iff)
qed

text \<open>
  C4. Every identifier of the result is the upper-cased form of a piece of the text that
  has the form word characters, hyphen, digits, and that has no word character right
  before it and none right after it. \<^verbatim>\<open>XABC-123X\<close> gives the empty sequence and
  \<^verbatim>\<open>(ABC-123)\<close> gives \<^verbatim>\<open>ABC-123\<close>.
\<close>

theorem extractIssueIDs_word_boundaries:
  "(\<forall>e \<in> set (elems (extractIssueIDs text)).
      \<exists>pre m post. text = pre @ m @ post \<and> e = ToUpper m \<and> issue_shaped m
        \<and> (pre = [] \<or> \<not> is_word_char (last pre))
        \<and> (post = [] \<or> \<not> is_word_char (hd post)))
   \<and> extractIssueIDs ''XABC-123X'' = Slice []
   \<and> extractIssueIDs ''(ABC-123)'' = Slice [''ABC-123'']"
proof (intro conjI ballI)
  fix e
  assume "e \<in> set (elems (extractIssueIDs text))"
  from extractIssueIDs_from_match [OF this] obtain m where
    m: "m \<in> set (allMatches issue_re False None text)" "e = ToUpper m"
    by blast
  from allMatches_issue_re_sound [OF m(1)] obtain pre post w d where
    s: "text = pre @ m @ post" "m = w @ CHR ''-'' # d" "w \<noteq> []" "list_all is_word_char w"
      "d \<noteq> []" "list_all is_digit d"
      "\<not> is_word_at (if pre = [] then None else Some (last pre))"
      "\<not> is_word_at (next_char post)"
    by blast
  have shaped: "issue_shaped m"
    unfolding issue_shaped_iff using s(2-6) by blast
  have before: "pre = [] \<or> \<not> is_word_char (last pre)"
    using s(7) by (cases "pre = []") simp_all
  have after: "post = [] \<or> \<not> is_word_char (hd post)"
    using s(8) by (cases post) simp_all
  show "\<exists>pre m post. text = pre @ m @ post \<and> e = ToUpper m \<and> issue_shaped m
        \<and> (pre = [] \<or> \<not> is_word_char (last pre))
        \<and> (post = [] \<or> \<not> is_word_char (hd post))"
    using s(1) m(2) shaped before after by blast
next
  show "extractIssueIDs ''XABC-123X'' = Slice []" by (rule extract_flanked_example)
  show "extractIssueIDs ''(ABC-123)'' = Slice [''ABC-123'']"
    by (rule extract_punctuation_example)
qed

theorem extractIssueIDs_word_boundaries_witness:
  "\<exists>pre m post. ''(ABC-123)'' = pre @ m @ post \<and> ''ABC-123'' = ToUpper m \<and> issue_shaped m
        \<and> (pre = [] \<or> \<not> is_word_char (last pre))
        \<and> (post = [] \<or> \<not> is_word_char (hd post))"
  using extractIssueIDs_word_boundaries [of "''(ABC-123)''"]
  by (simp add: extract_punctuation_example)

lemma distinct_count_list_one: "distinct xs \<Longrightarrow> x \<in> set xs \<Longrightarrow> count_list xs x = 1"
  by (induction xs) auto

text \<open>
  C10. Every element of the result is its own upper-casing and has no lower-case letter,
  has the form word characters, hyphen, digits, and occurs exactly once in the result.
  The result is never the nil slice; a text with no match gives the empty slice.
\<close>

theorem extractIssueIDs_elements:
  "(\<forall>e \<in> set (elems (extractIssueIDs text)).
      ToUpper e = e \<and> list_all (\<lambda>c. \<not> is_lower c) e \<and> issue_shaped e
      \<and> count_list (elems (extractIssueIDs text)) e = 1)
   \<and> extractIssueIDs text \<noteq> NilSlice
   \<and> (FindAllString issue_re text = NilSlice \<longrightarrow> extractIssueIDs text = Slice [])"
proof (intro conjI ballI impI)
  fix e
  assume e: "e \<in> set (elems (extractIssueIDs text))"
  from extractIssueIDs_from_match [OF e] obtain m where
    m: "m \<in> set (allMatches issue_re False None text)" "e = ToUpper m"
    by blast
  from allMatches_issue_re_sound [OF m(1)] have "issue_shaped m"
    unfolding issue_shaped_iff by blast
  then show "issue_shaped e" unfolding m(2) by (rule ToUpper_shaped)
  show "ToUpper e = e" unfolding m(2) by (rule ToUpper_idem)
  show "list_all (\<lambda>c. \<not> is_lower c) e" unfolding m(2) by (rule ToUpper_no_lower)
  have "distinct (elems (extractIssueIDs text))"
    using extractIssueIDs_props [of "text"] by auto
  then show "count_list (elems (extractIssueIDs text)) e = 1"
    using e by (rule distinct_count_list_one)
next
  show "extractIssueIDs text \<noteq> NilSlice"
    using extractIssueIDs_props [of "text"] by auto
next
  assume "FindAllString issue_re text = NilSlice"
  then show "extractIssueIDs text = Slice []"
    by (simp add: extractIssueIDs_def)
qed

theorem extractIssueIDs_elements_witness:
  "ToUpper ''ABC-1'' = ''ABC-1'' \<and> list_all (\<lambda>c. \<not> is_lower c) ''ABC-1''
   \<and> issue_shaped ''ABC-1'' \<and> count_list (elems (extractIssueIDs ''see abc-1'')) ''ABC-1'' = 1
   \<and> extractIssueIDs ''see abc-1'' = Slice [''ABC-1'']
   \<and> FindAllString issue_re ''hello world'' = NilSlice
   \<and> extractIssueIDs ''hello world'' = Slice []"
  using extractIssueIDs_elements [of "''see abc-1''"]
    extractIssueIDs_elements [of "''hello world''"]
  by (simp add: extract_lower_example FindAllString_none_example)

end
